theory Spec2Isabelle
  imports Complex_Main "HOL-Library.Sublist"
begin

section \<open>The fine-grained classifier (src/main.py)\<close>

text \<open>
  Page text is a \<open>string\<close>: one \<open>char\<close> per character of the Python \<open>str\<close>, read as the
  code point of that number, so the model covers the texts whose characters are code
  points below 256 (Latin-1). The OCR backend is external: \<open>classify_page\<close> below takes
  the text that \<open>extract_text_from_image\<close> hands on, and the page number.
  Confidences are Python floats built from the literals 5.0, 1.0, 0.5, 0.2, 0.7, 0.9 and
  an integer score; they are modelled as exact reals.
\<close>

datatype DrawingType =
    COVER | PROJECT_INFO | SITE_PLAN | FLOOR_PLAN | ELEVATION | SECTION | ROOF_PLAN
  | FOUNDATION | ELECTRICAL | PLUMBING | MECHANICAL | STRUCTURAL | DETAIL | SCHEDULE
  | UNKNOWN

record ClassificationResult =
  page_number :: int
  classification :: DrawingType
  confidence :: real
  keywords_found :: "string list"
  drawing_number :: "string option"

text \<open>\<open>self.keywords\<close>: a dict, iterated in insertion order.\<close>

definition keywords_tab :: "(DrawingType \<times> string list) list" where
  "keywords_tab =
    [(COVER, [''cover'', ''title sheet'', ''project title'', ''drawing index'',
        ''sheet index'', ''consultants'', ''project team'']),
     (PROJECT_INFO, [''general notes'', ''legend'', ''abbreviations'', ''symbols'',
        ''project information'', ''code analysis'', ''vicinity map'']),
     (SITE_PLAN, [''site plan'', ''plot plan'', ''survey'', ''property line'', ''setback'',
        ''parking layout'', ''landscape'']),
     (FLOOR_PLAN, [''floor plan'', ''layout'', ''room schedule'', ''door schedule'',
        ''window schedule'', ''partition'', ''furniture plan'']),
     (ELEVATION, [''elevation'', ''exterior elevation'', ''building elevation'',
        ''north elevation'', ''south elevation'', ''east elevation'', ''west elevation'']),
     (SECTION, [''section'', ''building section'', ''wall section'', ''detail section'',
        ''cross section'']),
     (ROOF_PLAN, [''roof plan'', ''roof framing'', ''roof layout'', ''roofing plan'']),
     (FOUNDATION, [''foundation'', ''footing'', ''basement'', ''slab'', ''pier'',
        ''foundation plan'', ''grading plan'']),
     (ELECTRICAL, [''electrical'', ''power plan'', ''lighting'', ''panel schedule'',
        ''circuit'', ''receptacle'', ''switch'']),
     (PLUMBING, [''plumbing'', ''sanitary'', ''water'', ''drainage'', ''fixture'',
        ''domestic water'', ''waste'']),
     (MECHANICAL, [''mechanical'', ''hvac'', ''duct'', ''ventilation'', ''air conditioning'',
        ''heating'', ''exhaust'']),
     (STRUCTURAL, [''structural'', ''framing'', ''beam'', ''column'', ''truss'', ''steel'',
        ''concrete'', ''reinforcing'']),
     (DETAIL, [''detail'', ''enlarged'', ''typical detail'', ''construction detail'']),
     (SCHEDULE, [''schedule'', ''finish schedule'', ''door schedule'', ''window schedule'',
        ''room finish''])]"

text \<open>\<open>self.drawing_prefixes\<close>.\<close>

definition drawing_prefixes :: "(char \<times> DrawingType) list" where
  "drawing_prefixes =
    [(CHR ''A'', FLOOR_PLAN), (CHR ''S'', STRUCTURAL), (CHR ''E'', ELECTRICAL),
     (CHR ''M'', MECHANICAL), (CHR ''P'', PLUMBING), (CHR ''L'', SITE_PLAN),
     (CHR ''C'', SITE_PLAN)]"

subsection \<open>Strings: \<open>upper\<close>, \<open>in\<close>, \<open>count\<close>, \<open>re.search\<close>\<close>

definition is_upper :: "char \<Rightarrow> bool" where
  "is_upper c = (65 \<le> (of_char c :: nat) \<and> (of_char c :: nat) \<le> 90)"

definition is_lower :: "char \<Rightarrow> bool" where
  "is_lower c = (97 \<le> (of_char c :: nat) \<and> (of_char c :: nat) \<le> 122)"

definition is_digit :: "char \<Rightarrow> bool" where
  "is_digit c = (48 \<le> (of_char c :: nat) \<and> (of_char c :: nat) \<le> 57)"

text \<open>
  \<open>str.upper()\<close> on code points below 256. The letters \<open>a\<close> to \<open>z\<close> and the accented small
  letters 0xE0 to 0xFE (but the division sign 0xF7) move down by 32; the sharp s 0xDF
  becomes the two letters \<open>SS\<close>, so the result can be longer than the text. Python maps the
  micro sign 0xB5 and the y with diaeresis 0xFF to code points above 255; they are kept
  as they are, and like their images they match no atom of the patterns below.
\<close>

definition is_lower_latin :: "char \<Rightarrow> bool" where
  "is_lower_latin c =
     (224 \<le> (of_char c :: nat) \<and> (of_char c :: nat) \<le> 254 \<and> (of_char c :: nat) \<noteq> 247)"

definition upper_char :: "char \<Rightarrow> string" where
  "upper_char c =
     (if c = CHR 0xDF then ''SS''
      else if is_lower c \<or> is_lower_latin c then [char_of ((of_char c :: nat) - 32)]
      else [c])"

definition upper :: "string \<Rightarrow> string" where
  "upper s = concat (map upper_char s)"

text \<open>
  \<open>keyword in text\<close> is \<^term>\<open>sublist keyword text\<close> (a contiguous sublist).
  \<open>text.count(keyword)\<close> counts non-overlapping occurrences from the left; for the empty
  keyword Python returns \<open>len(text) + 1\<close>.
\<close>

function count_from :: "string \<Rightarrow> string \<Rightarrow> nat" where
  "count_from sub s =
     (if sub = [] \<or> length s < length sub then 0
      else if prefix sub s then Suc (count_from sub (drop (length sub) s))
      else count_from sub (tl s))"
  by pat_completeness auto
termination
proof (relation "measure (\<lambda>(sub, s). length s)")
  fix sub s :: string
  assume "\<not> (sub = [] \<or> length s < length sub)"
  then have "0 < length sub" "0 < length s" by auto
  then show "((sub, drop (length sub) s), sub, s) \<in> measure (\<lambda>(sub, s). length s)"
    and "((sub, tl s), sub, s) \<in> measure (\<lambda>(sub, s). length s)"
    by simp_all
qed simp

declare count_from.simps [simp del]

definition count_str :: "string \<Rightarrow> string \<Rightarrow> nat" where
  "count_str s sub = (if sub = [] then length s + 1 else count_from sub s)"

text \<open>
  The three patterns of \<open>extract_drawing_number\<close> are sequences of single-character
  atoms: \<open>[A-Z]\<close>, \<open>\d\<close>, or a literal character. Below code point 256 the decimal digits
  that \<open>\d\<close> matches are \<open>0\<close> to \<open>9\<close>.
\<close>

datatype atom = Upper | Digit | Lit char

fun atom_matches :: "atom \<Rightarrow> char \<Rightarrow> bool" where
  "atom_matches Upper c = is_upper c"
| "atom_matches Digit c = is_digit c"
| "atom_matches (Lit d) c = (c = d)"

fun match_here :: "atom list \<Rightarrow> string \<Rightarrow> bool" where
  "match_here [] s = True"
| "match_here (a # as) [] = False"
| "match_here (a # as) (c # cs) = (atom_matches a c \<and> match_here as cs)"

text \<open>\<open>re.search\<close>: the leftmost position where the pattern matches; \<open>group(0)\<close>.\<close>

fun re_search :: "atom list \<Rightarrow> string \<Rightarrow> string option" where
  "re_search pat [] = (if match_here pat [] then Some [] else None)"
| "re_search pat (c # cs) =
     (if match_here pat (c # cs) then Some (take (length pat) (c # cs))
      else re_search pat cs)"

definition patterns :: "atom list list" where
  "patterns =
    [[Upper, Lit (CHR ''-''), Digit, Digit, Digit],
     [Upper, Digit, Digit, Digit],
     [Upper, Lit (CHR ''-''), Digit, Lit (CHR ''.''), Digit]]"

fun first_match :: "atom list list \<Rightarrow> string \<Rightarrow> string option" where
  "first_match [] s = None"
| "first_match (pat # pats) s =
     (case re_search pat s of Some m \<Rightarrow> Some m | None \<Rightarrow> first_match pats s)"

definition extract_drawing_number :: "string \<Rightarrow> string option" where
  "extract_drawing_number text = first_match patterns (upper text)"

subsection \<open>Keyword scoring\<close>

text \<open>The inner loop of \<open>classify_by_keywords\<close>: one category's \<open>(score, found)\<close>.\<close>

definition scan_keyword :: "string \<Rightarrow> nat \<times> string list \<Rightarrow> string \<Rightarrow> nat \<times> string list" where
  "scan_keyword text acc keyword =
     (if sublist keyword text
      then (fst acc + count_str text keyword, snd acc @ [keyword])
      else acc)"

definition scan_keywords :: "string \<Rightarrow> string list \<Rightarrow> nat \<times> string list" where
  "scan_keywords text kws = foldl (scan_keyword text) (0, []) kws"

text \<open>The dicts \<open>scores\<close> and \<open>found_keywords\<close>, in insertion order.\<close>

definition scores :: "string \<Rightarrow> (DrawingType \<times> nat) list" where
  "scores text = map (\<lambda>(drawing_type, kws). (drawing_type, fst (scan_keywords text kws))) keywords_tab"

definition found_keywords :: "string \<Rightarrow> (DrawingType \<times> string list) list" where
  "found_keywords text =
     map (\<lambda>(drawing_type, kws). (drawing_type, snd (scan_keywords text kws))) keywords_tab"

text \<open>
  \<open>max(d, key=d.get)\<close>: the keys are visited in order and the candidate is replaced only
  by a key with a strictly greater value.
\<close>

fun max_from :: "'k \<times> nat \<Rightarrow> ('k \<times> nat) list \<Rightarrow> 'k \<times> nat" where
  "max_from best [] = best"
| "max_from best (kv # rest) = max_from (if snd best < snd kv then kv else best) rest"

text \<open>\<open>max\<close> of an empty dict raises ValueError: the result is \<open>None\<close>.\<close>

definition max_key :: "('k \<times> nat) list \<Rightarrow> ('k \<times> nat) option" where
  "max_key d = (case d of [] \<Rightarrow> None | kv # rest \<Rightarrow> Some (max_from kv rest))"

definition classify_by_keywords :: "string \<Rightarrow> DrawingType \<times> real \<times> string list" where
  "classify_by_keywords text =
     (if \<not> (\<exists>v \<in> set (map snd (scores text)). v \<noteq> 0) then (UNKNOWN, 0, [])
      else case max_key (scores text) of
        None \<Rightarrow> (UNKNOWN, 0, [])
      | Some (best_type, max_score) \<Rightarrow>
          (best_type, min (real max_score / 5) 1,
           case map_of (found_keywords text) best_type of Some found \<Rightarrow> found | None \<Rightarrow> []))"

text \<open>
  \<open>drawing_num[0].upper()\<close> is a string; the keys of \<open>drawing_prefixes\<close> are single
  letters, so a longer string is no key.
\<close>

definition classify_by_drawing_number :: "string \<Rightarrow> DrawingType option" where
  "classify_by_drawing_number drawing_num =
     (case drawing_num of
        [] \<Rightarrow> None
      | c # _ \<Rightarrow> (case upper_char c of [u] \<Rightarrow> map_of drawing_prefixes u | _ \<Rightarrow> None))"

subsection \<open>Fusion\<close>

text \<open>
  The \<open>if\<close>/\<open>elif\<close>/\<open>else\<close> of \<open>classify_page\<close> that combines the prefix category with
  the keyword result. \<open>prefix_type\<close> is \<open>None\<close> or a category, and a category is never
  \<open>None\<close>, so the \<open>elif\<close> can only hold for an inferred prefix category.
\<close>

definition combine :: "DrawingType option \<Rightarrow> DrawingType \<Rightarrow> real \<Rightarrow> DrawingType \<times> real" where
  "combine prefix_type keyword_type keyword_confidence =
     (case prefix_type of
        Some p \<Rightarrow>
          if keyword_confidence < 0.5 then (p, 0.7)
          else if p = keyword_type then (keyword_type, min (keyword_confidence + 0.2) 1)
          else (keyword_type, keyword_confidence)
      | None \<Rightarrow> (keyword_type, keyword_confidence))"

text \<open>
  \<open>classify_page\<close>, from the extracted text on. The special case for the first page is
  the last assignment to \<open>final_type\<close> and \<open>final_confidence\<close>, so it replaces what the
  combination gave; the evidence is \<open>keywords[:5]\<close> of \<open>classify_by_keywords\<close>.
\<close>

definition classify_page :: "string \<Rightarrow> int \<Rightarrow> ClassificationResult" where
  "classify_page text page_num =
     (let drawing_num = extract_drawing_number text;
          (keyword_type, keyword_confidence, kws) = classify_by_keywords text;
          prefix_type = (case drawing_num of
                           Some d \<Rightarrow> classify_by_drawing_number d
                         | None \<Rightarrow> None);
          (final_type, final_confidence) =
            (if page_num = 1 \<and> sublist ''cover'' text then (COVER, 0.9)
             else combine prefix_type keyword_type keyword_confidence)
      in \<lparr> page_number = page_num, classification = final_type,
           confidence = final_confidence, keywords_found = take 5 kws,
           drawing_number = drawing_num \<rparr>)"

text \<open>
  \<open>scores[c]\<close> and \<open>found_keywords[c]\<close> for a category \<open>c\<close>; \<open>UNKNOWN\<close> is not a key of
  either dict and stands for "no score, nothing found".
\<close>

definition raw_score :: "string \<Rightarrow> DrawingType \<Rightarrow> nat" where
  "raw_score text c = (case map_of (scores text) c of Some v \<Rightarrow> v | None \<Rightarrow> 0)"

definition found_of :: "string \<Rightarrow> DrawingType \<Rightarrow> string list" where
  "found_of text c = (case map_of (found_keywords text) c of Some f \<Rightarrow> f | None \<Rightarrow> [])"

text \<open>
  Whitespace, as \<open>str.isspace\<close> has it below code point 256: tab to carriage return, the
  separators 0x1C to 0x1F, the blank, next line 0x85 and the no-break space 0xA0.
\<close>

definition is_space :: "char \<Rightarrow> bool" where
  "is_space c =
     ((9 \<le> (of_char c :: nat) \<and> (of_char c :: nat) \<le> 13)
      \<or> (28 \<le> (of_char c :: nat) \<and> (of_char c :: nat) \<le> 32)
      \<or> (of_char c :: nat) = 133 \<or> (of_char c :: nat) = 160)"

section \<open>The zone-weighted classifier (src/app/classifier.py)\<close>

text \<open>
  Categories are the strings of the source. A page is given by the lower-cased texts of
  its title-block zones, in the order of \<open>zone_text.values()\<close> (bottom, bottom_right,
  right, left), and its lower-cased full text.
\<close>

definition KEYWORDS :: "(string \<times> string list) list" where
  "KEYWORDS =
    [(''FLOOR_PLAN'', [''floor plan'', ''level'', ''ground floor'', ''first floor'',
        ''second floor'']),
     (''ELEVATION'', [''elevation'', ''north elevation'', ''south elevation'',
        ''east elevation'', ''west elevation'']),
     (''FOUNDATION'', [''foundation plan'', ''foundation'', ''footing'', ''slab on grade'']),
     (''GENERAL_NOTES'', [''general notes'', ''general note'', ''general construction notes'',
        ''general information'', ''notes and details'', ''abbreviations'', ''symbols'',
        ''legend'', ''code requirements'']),
     (''LEDGER'', [''sheet index'', ''index of drawings'', ''drawing list'', ''schedule''])]"

text \<open>\<open>scores[k] += n\<close> on a \<open>defaultdict(int)\<close>: a new key is appended.\<close>

fun bump :: "(string \<times> nat) list \<Rightarrow> string \<Rightarrow> nat \<Rightarrow> (string \<times> nat) list" where
  "bump [] k n = [(k, n)]"
| "bump ((k', v) # rest) k n =
     (if k' = k then (k', v + n) # rest else (k', v) # bump rest k n)"

text \<open>
  The keyword loops over one text: every tag of every category that occurs in the text
  adds \<open>w\<close> points to its category (3 for a zone, 1 for the full text).
\<close>

definition scan_tags :: "nat \<Rightarrow> string \<Rightarrow> string \<Rightarrow> (string \<times> nat) list \<Rightarrow> string list
    \<Rightarrow> (string \<times> nat) list" where
  "scan_tags w txt category sc tags =
     foldl (\<lambda>sc tag. if sublist tag txt then bump sc category w else sc) sc tags"

definition scan_text :: "nat \<Rightarrow> string \<Rightarrow> (string \<times> nat) list \<Rightarrow> (string \<times> nat) list" where
  "scan_text w txt sc = foldl (\<lambda>sc (category, tags). scan_tags w txt category sc tags) sc KEYWORDS"

text \<open>The loop over the zones: each zone is scanned with 3 points a tag.\<close>

fun scan_zones :: "string list \<Rightarrow> (string \<times> nat) list \<Rightarrow> (string \<times> nat) list" where
  "scan_zones [] sc = sc"
| "scan_zones (zone # zones) sc = scan_zones zones (scan_text 3 zone sc)"

text \<open>The scores after the zone loop and the full-text loop (1 point a tag).\<close>

definition keyword_scores :: "string list \<Rightarrow> string \<Rightarrow> (string \<times> nat) list" where
  "keyword_scores zone_text full_text = scan_text 1 full_text (scan_zones zone_text [])"

text \<open>The scores after the text-density step.\<close>

definition page_scores :: "string list \<Rightarrow> string \<Rightarrow> (string \<times> nat) list" where
  "page_scores zone_text full_text =
     (if 2000 < length full_text
      then bump (keyword_scores zone_text full_text) ''GENERAL_NOTES'' 3
      else keyword_scores zone_text full_text)"

definition classify_page_app :: "string list \<Rightarrow> string \<Rightarrow> string" where
  "classify_page_app zone_text full_text =
     (case max_key (page_scores zone_text full_text) of
        None \<Rightarrow> ''UNKNOWN''
      | Some (category, score) \<Rightarrow> category)"

text \<open>\<open>scores[k]\<close> read from the \<open>defaultdict(int)\<close>.\<close>

definition score_of :: "(string \<times> nat) list \<Rightarrow> string \<Rightarrow> nat" where
  "score_of sc k = (case map_of sc k of Some v \<Rightarrow> v | None \<Rightarrow> 0)"

text \<open>The number of tags of a list that occur in a text.\<close>

definition hits :: "string list \<Rightarrow> string \<Rightarrow> nat" where
  "hits tags txt = length (filter (\<lambda>tag. sublist tag txt) tags)"

section \<open>Properties of the fine-grained classifier\<close>

subsection \<open>Auxiliary facts\<close>

lemma foldl_scan_keyword:
  "foldl (scan_keyword text) acc kws =
     (fst acc + sum_list (map (count_str text) (filter (\<lambda>k. sublist k text) kws)),
      snd acc @ filter (\<lambda>k. sublist k text) kws)"
  by (induction kws arbitrary: acc) (simp_all add: scan_keyword_def)

lemma scan_keywords_eq:
  "scan_keywords text kws =
     (sum_list (map (count_str text) (filter (\<lambda>k. sublist k text) kws)),
      filter (\<lambda>k. sublist k text) kws)"
  by (simp add: scan_keywords_def foldl_scan_keyword)

lemma max_from_split:
  "\<exists>pre post. best # rest = pre @ max_from best rest # post
     \<and> (\<forall>kv \<in> set pre. snd kv < snd (max_from best rest))
     \<and> (\<forall>kv \<in> set post. snd kv \<le> snd (max_from best rest))"
proof (induction rest arbitrary: best)
  case Nil
  show ?case by (intro exI [of _ "[]"]) simp
next
  case (Cons x xs)
  define b where "b = (if snd best < snd x then x else best)"
  define m where "m = max_from b xs"
  from Cons.IH [of b] obtain pre post where
    split: "b # xs = pre @ m # post" and
    lt: "\<forall>kv \<in> set pre. snd kv < snd m" and
    le: "\<forall>kv \<in> set post. snd kv \<le> snd m"
    unfolding m_def by blast
  have step: "max_from best (x # xs) = m" by (simp add: m_def b_def)
  have b_le: "snd b \<le> snd m"
  proof (cases pre)
    case Nil
    with split have "b = m" by simp
    then show ?thesis by simp
  next
    case (Cons p ps)
    with split have "b \<in> set pre" by simp
    with lt show ?thesis by (simp add: less_imp_le)
  qed
  have "\<exists>pre post. best # x # xs = pre @ m # post
     \<and> (\<forall>kv \<in> set pre. snd kv < snd m) \<and> (\<forall>kv \<in> set post. snd kv \<le> snd m)"
  proof (cases "snd best < snd x")
    case True
    then have "b = x" by (simp add: b_def)
    with split have "best # x # xs = (best # pre) @ m # post" by simp
    moreover from True b_le \<open>b = x\<close> have "snd best < snd m" by simp
    with lt have "\<forall>kv \<in> set (best # pre). snd kv < snd m" by simp
    ultimately show ?thesis using le by blast
  next
    case False
    then have bb: "b = best" by (simp add: b_def)
    show ?thesis
    proof (cases pre)
      case Nil
      with split bb have "best # x # xs = [] @ m # (x # post)" and "m = best" by simp_all
      moreover from this False le have "\<forall>kv \<in> set (x # post). snd kv \<le> snd m" by simp
      ultimately show ?thesis by (metis empty_iff empty_set)
    next
      case (Cons p ps)
      with split bb have eq: "best # x # xs = (best # x # ps) @ m # post" and p: "p = best"
        by simp_all
      from Cons p lt have "snd best < snd m" by simp
      moreover from this False have "snd x < snd m" by simp
      moreover from Cons lt have "\<forall>kv \<in> set ps. snd kv < snd m" by simp
      ultimately have "\<forall>kv \<in> set (best # x # ps). snd kv < snd m" by simp
      with eq le show ?thesis by blast
    qed
  qed
  then show ?case unfolding step .
qed

lemma scores_keys:
  "map fst (scores text) =
     [COVER, PROJECT_INFO, SITE_PLAN, FLOOR_PLAN, ELEVATION, SECTION, ROOF_PLAN, FOUNDATION,
      ELECTRICAL, PLUMBING, MECHANICAL, STRUCTURAL, DETAIL, SCHEDULE]"
  by (simp add: scores_def keywords_tab_def)

lemma found_keys: "map fst (found_keywords text) = map fst (scores text)"
  by (simp add: scores_def found_keywords_def case_prod_unfold)

lemma distinct_scores: "distinct (map fst (scores text))"
  by (simp add: scores_keys)

lemma max_key_scores:
  "\<exists>best m pre post. max_key (scores t) = Some (best, m)
     \<and> scores t = pre @ (best, m) # post
     \<and> (\<forall>kv \<in> set pre. snd kv < m) \<and> (\<forall>kv \<in> set post. snd kv \<le> m)"
proof -
  from scores_keys [of t] obtain kv rest where sc: "scores t = kv # rest"
    by (cases "scores t") simp_all
  obtain best m where bm: "max_from kv rest = (best, m)" by (cases "max_from kv rest")
  from max_from_split [of kv rest] bm sc show ?thesis
    by (simp add: max_key_def) 
qed

lemma map_of_split:
  "distinct (map fst xs) \<Longrightarrow> xs = pre @ (k, v) # post \<Longrightarrow> map_of xs k = Some v"
  by (rule map_of_is_SomeI) simp_all

lemma classify_by_keywords_zero:
  "\<not> (\<exists>v \<in> set (map snd (scores t)). v \<noteq> 0) \<Longrightarrow>
     classify_by_keywords t = (UNKNOWN, 0, [])"
  by (simp add: classify_by_keywords_def)

lemma classify_by_keywords_pos:
  assumes "\<exists>v \<in> set (map snd (scores t)). v \<noteq> 0"
  shows "\<exists>best m pre post.
           classify_by_keywords t = (best, min (real m / 5) 1, found_of t best)
         \<and> scores t = pre @ (best, m) # post
         \<and> (\<forall>kv \<in> set pre. snd kv < m) \<and> (\<forall>kv \<in> set post. snd kv \<le> m)"
proof -
  from max_key_scores [of t] obtain best m pre post where
    mk: "max_key (scores t) = Some (best, m)" and
    sp: "scores t = pre @ (best, m) # post" and
    lt: "\<forall>kv \<in> set pre. snd kv < m" and le: "\<forall>kv \<in> set post. snd kv \<le> m"
    by blast
  from assms mk have "classify_by_keywords t = (best, min (real m / 5) 1, found_of t best)"
    by (simp add: classify_by_keywords_def found_of_def)
  with sp lt le show ?thesis by blast
qed

lemma classify_by_keywords_bounds:
  "0 \<le> fst (snd (classify_by_keywords t)) \<and> fst (snd (classify_by_keywords t)) \<le> 1"
  by (simp add: classify_by_keywords_def split: option.splits prod.splits)

lemma combine_bounds:
  "0 \<le> kc \<Longrightarrow> kc \<le> 1 \<Longrightarrow> 0 \<le> snd (combine p k kc) \<and> snd (combine p k kc) \<le> 1"
  by (simp add: combine_def split: option.splits)

lemma classify_page_unfold:
  assumes "classify_by_keywords t = (k, kc, found)"
  shows "classify_page t n =
    \<lparr> page_number = n,
      classification =
        fst (if n = 1 \<and> sublist ''cover'' t then (COVER, 0.9)
             else combine (case extract_drawing_number t of
                             Some d \<Rightarrow> classify_by_drawing_number d | None \<Rightarrow> None) k kc),
      confidence =
        snd (if n = 1 \<and> sublist ''cover'' t then (COVER, 0.9)
             else combine (case extract_drawing_number t of
                             Some d \<Rightarrow> classify_by_drawing_number d | None \<Rightarrow> None) k kc),
      keywords_found = take 5 found,
      drawing_number = extract_drawing_number t \<rparr>"
  by (simp add: classify_page_def Let_def assms split: prod.splits)

lemma keywords_tab_distinct: "distinct (map fst keywords_tab)"
  by (simp add: keywords_tab_def)

lemma found_of_table:
  assumes "(c, kws) \<in> set keywords_tab"
  shows "found_of t c = filter (\<lambda>k. sublist k t) kws"
proof -
  from keywords_tab_distinct assms have "map_of keywords_tab c = Some kws"
    by (rule map_of_is_SomeI)
  moreover have "found_keywords t = map (\<lambda>(c, kws). (c, snd (scan_keywords t kws))) keywords_tab"
    by (simp add: found_keywords_def)
  ultimately have "map_of (found_keywords t) c = Some (snd (scan_keywords t kws))"
    by (simp add: map_of_map)
  then show ?thesis by (simp add: found_of_def scan_keywords_eq)
qed

lemma raw_score_table:
  assumes "(c, kws) \<in> set keywords_tab"
  shows "raw_score t c = sum_list (map (count_str t) (filter (\<lambda>k. sublist k t) kws))"
proof -
  from keywords_tab_distinct assms have "map_of keywords_tab c = Some kws"
    by (rule map_of_is_SomeI)
  moreover have "scores t = map (\<lambda>(c, kws). (c, fst (scan_keywords t kws))) keywords_tab"
    by (simp add: scores_def)
  ultimately have "map_of (scores t) c = Some (fst (scan_keywords t kws))"
    by (simp add: map_of_map)
  then show ?thesis by (simp add: raw_score_def scan_keywords_eq)
qed

lemma unknown_not_scored: "UNKNOWN \<notin> set (map fst (scores t))"
  by (simp add: scores_keys)

lemma raw_score_unknown: "raw_score t UNKNOWN = 0"
proof -
  from unknown_not_scored [of t] have "map_of (scores t) UNKNOWN = None"
    by (simp add: map_of_eq_None_iff)
  then show ?thesis by (simp add: raw_score_def)
qed

lemma found_of_unknown: "found_of t UNKNOWN = []"
proof -
  from unknown_not_scored [of t] have "map_of (found_keywords t) UNKNOWN = None"
    by (simp add: map_of_eq_None_iff found_keys [symmetric])
  then show ?thesis by (simp add: found_of_def)
qed

text \<open>What \<open>classify_by_keywords\<close> returns, in terms of the winning category.\<close>

lemma classify_by_keywords_shape:
  "classify_by_keywords t =
     (fst (classify_by_keywords t),
      min (real (raw_score t (fst (classify_by_keywords t))) / 5) 1,
      found_of t (fst (classify_by_keywords t)))"
proof (cases "\<exists>v \<in> set (map snd (scores t)). v \<noteq> 0")
  case False
  then have "classify_by_keywords t = (UNKNOWN, 0, [])"
    by (rule classify_by_keywords_zero)
  then show ?thesis by (simp add: raw_score_unknown found_of_unknown)
next
  case True
  from classify_by_keywords_pos [OF this] obtain best m pre post where
    c: "classify_by_keywords t = (best, min (real m / 5) 1, found_of t best)" and
    s: "scores t = pre @ (best, m) # post"
    by blast
  from distinct_scores s have "map_of (scores t) best = Some m" by (rule map_of_split)
  then have "raw_score t best = m" by (simp add: raw_score_def)
  with c show ?thesis by simp
qed

text \<open>Texts without keywords, and texts without an upper-case letter after \<open>upper\<close>.\<close>

lemma sublist_hd_mem: "sublist k t \<Longrightarrow> k \<noteq> [] \<Longrightarrow> hd k \<in> set t"
  using set_mono_sublist [of k t] by (cases k) auto

lemma keywords_start_lower:
  "\<forall>k \<in> set (concat (map snd keywords_tab)). k \<noteq> [] \<and> is_lower (hd k)"
  by code_simp

lemma space_not_letter: "is_space c \<Longrightarrow> \<not> is_lower c \<and> \<not> is_upper c"
  by (auto simp: is_space_def is_lower_def is_upper_def)

lemma upper_char_space: "is_space c \<Longrightarrow> upper_char c = [c]"
proof -
  assume sp: "is_space c"
  then have "(of_char c :: nat) \<noteq> 223" by (auto simp: is_space_def)
  then have "c \<noteq> CHR 0xDF" by auto
  moreover from sp have "\<not> is_lower c" "\<not> is_lower_latin c"
    by (auto simp: is_space_def is_lower_def is_lower_latin_def)
  ultimately show ?thesis by (simp add: upper_char_def)
qed

lemma keyword_free_scores:
  assumes "\<forall>k \<in> set (concat (map snd keywords_tab)). \<not> sublist k t"
  shows "\<not> (\<exists>v \<in> set (map snd (scores t)). v \<noteq> 0)"
proof -
  have "filter (\<lambda>k. sublist k t) kws = []" if "(c, kws) \<in> set keywords_tab" for c kws
    using that assms by (force simp: filter_empty_conv)
  then show ?thesis
    by (auto simp: scores_def scan_keywords_eq)
qed

lemma re_search_upper_None:
  "\<forall>c \<in> set s. \<not> is_upper c \<Longrightarrow> re_search (Upper # pat) s = None"
  by (induction s) simp_all

lemma re_search_upper_Some:
  "re_search (Upper # pat) s = Some m \<Longrightarrow> m \<noteq> [] \<and> is_upper (hd m)"
  by (induction s) (auto split: if_splits)

lemma extract_drawing_number_None:
  assumes "\<forall>c \<in> set t. \<forall>u \<in> set (upper_char c). \<not> is_upper u"
  shows "extract_drawing_number t = None"
proof -
  from assms have "\<forall>c \<in> set (upper t). \<not> is_upper c" by (auto simp: upper_def)
  then show ?thesis
    by (simp add: extract_drawing_number_def patterns_def re_search_upper_None)
qed

lemma extract_drawing_number_Some:
  assumes "extract_drawing_number t = Some d"
  shows "d \<noteq> [] \<and> is_upper (hd d)"
  using assms re_search_upper_Some
  by (auto simp: extract_drawing_number_def patterns_def split: option.splits)

lemma upper_char_upper: "is_upper c \<Longrightarrow> upper_char c = [c]"
proof -
  assume up: "is_upper c"
  then have "(of_char c :: nat) \<noteq> 223" by (auto simp: is_upper_def)
  then have "c \<noteq> CHR 0xDF" by auto
  moreover from up have "\<not> is_lower c" "\<not> is_lower_latin c"
    by (auto simp: is_upper_def is_lower_def is_lower_latin_def)
  ultimately show ?thesis by (simp add: upper_char_def)
qed

lemma classify_by_drawing_number_upper:
  "is_upper c \<Longrightarrow> classify_by_drawing_number (c # rest) = map_of drawing_prefixes c"
  by (simp add: classify_by_drawing_number_def upper_char_upper)

lemma prefix_table_None:
  "(map_of drawing_prefixes c = None) = (c \<notin> set ''ASEMPLC'')"
  by (simp add: drawing_prefixes_def)

lemma no_signal:
  assumes "\<forall>k \<in> set (concat (map snd keywords_tab)). \<not> sublist k t"
    and "extract_drawing_number t = None"
  shows "classify_page t n =
     \<lparr> page_number = n, classification = UNKNOWN, confidence = 0, keywords_found = [],
       drawing_number = None \<rparr>"
proof -
  from keyword_free_scores [OF assms(1)] have z: "classify_by_keywords t = (UNKNOWN, 0, [])"
    by (rule classify_by_keywords_zero)
  have "''cover'' \<in> set (concat (map snd keywords_tab))" by (simp add: keywords_tab_def)
  with assms(1) have "\<not> sublist ''cover'' t" by blast
  with assms(2) show ?thesis
    by (simp add: classify_page_unfold [OF z] combine_def)
qed










subsection \<open>The cover-page override\<close>

text \<open>
  C1. On page 1, a text that contains the substring "cover" is classified COVER with
  confidence 0.9, whatever the keyword baseline and the drawing-number prefix say.
\<close>

theorem cover_page_override:
  assumes "page_num = 1" and "sublist ''cover'' text"
  shows "classification (classify_page text page_num) = COVER
       \<and> confidence (classify_page text page_num) = 0.9"
  using assms by (simp add: classify_page_def Let_def split: prod.splits)

theorem cover_page_override_witness:
  "sublist ''cover'' ''beam beam beam beam beam s-101 cover''
   \<and> classify_by_keywords ''beam beam beam beam beam s-101 cover'' = (STRUCTURAL, 1, [''beam''])
   \<and> extract_drawing_number ''beam beam beam beam beam s-101 cover'' = Some ''S-101''
   \<and> classification (classify_page ''beam beam beam beam beam s-101 cover'' 1) = COVER
   \<and> confidence (classify_page ''beam beam beam beam beam s-101 cover'' 1) = 0.9"
proof -
  have h: "sublist ''cover'' ''beam beam beam beam beam s-101 cover''" by code_simp
  have k: "classify_by_keywords ''beam beam beam beam beam s-101 cover''
             = (STRUCTURAL, 1, [''beam''])" by code_simp
  have d: "extract_drawing_number ''beam beam beam beam beam s-101 cover'' = Some ''S-101''"
    by code_simp
  from cover_page_override [OF refl h] h k d show ?thesis by blast
qed

subsection \<open>The range of the confidence\<close>

text \<open>
  C9. The confidence of every result of \<open>classify_page\<close> lies in the closed interval
  from 0 to 1.
\<close>

theorem confidence_in_unit_interval:
  "0 \<le> confidence (classify_page text page_num) \<and> confidence (classify_page text page_num) \<le> 1"
proof -
  obtain k kc found where c: "classify_by_keywords text = (k, kc, found)"
    by (cases "classify_by_keywords text")
  from classify_by_keywords_bounds [of "text"] c have "0 \<le> kc" "kc \<le> 1" by simp_all
  from combine_bounds [OF this] show ?thesis
    by (simp add: classify_page_unfold [OF c])
qed

theorem confidence_in_unit_interval_witness:
  "confidence (classify_page ''floor plan layout partition a-101'' 2) = 4 / 5
   \<and> 0 \<le> confidence (classify_page ''floor plan layout partition a-101'' 2)
   \<and> confidence (classify_page ''floor plan layout partition a-101'' 2) \<le> 1"
proof -
  have "confidence (classify_page ''floor plan layout partition a-101'' 2) = 4 / 5"
    by code_simp
  with confidence_in_unit_interval [of "''floor plan layout partition a-101''" 2]
  show ?thesis by blast
qed

subsection \<open>Ties between categories\<close>

text \<open>
  C10, as amended. The raw scores are kept in the declaration order of the keyword table,
  COVER first and SCHEDULE last. When some raw score is positive, the category returned by
  \<open>classify_by_keywords\<close> splits that list so that every earlier category has a strictly
  smaller score and every later category a score that is no greater: among the categories
  of maximal score it is the one declared first. When every raw score is zero, so that all
  fourteen categories tie, it returns UNKNOWN and not the first category.
\<close>

theorem tie_break_declaration_order:
  "map fst (scores text) =
     [COVER, PROJECT_INFO, SITE_PLAN, FLOOR_PLAN, ELEVATION, SECTION, ROOF_PLAN,
      FOUNDATION, ELECTRICAL, PLUMBING, MECHANICAL, STRUCTURAL, DETAIL, SCHEDULE]
   \<and> ((\<exists>v \<in> set (map snd (scores text)). 0 < v) \<longrightarrow>
        (\<exists>m pre post.
            scores text = pre @ (fst (classify_by_keywords text), m) # post
          \<and> (\<forall>kv \<in> set pre. snd kv < m) \<and> (\<forall>kv \<in> set post. snd kv \<le> m)))
   \<and> (\<not> (\<exists>v \<in> set (map snd (scores text)). 0 < v) \<longrightarrow>
        fst (classify_by_keywords text) = UNKNOWN)"
proof (intro conjI impI)
  show "map fst (scores text) =
     [COVER, PROJECT_INFO, SITE_PLAN, FLOOR_PLAN, ELEVATION, SECTION, ROOF_PLAN,
      FOUNDATION, ELECTRICAL, PLUMBING, MECHANICAL, STRUCTURAL, DETAIL, SCHEDULE]"
    by (rule scores_keys)
next
  assume "\<exists>v \<in> set (map snd (scores text)). 0 < v"
  then have "\<exists>v \<in> set (map snd (scores text)). v \<noteq> 0" by auto
  from classify_by_keywords_pos [OF this] obtain best m pre post where
    "classify_by_keywords text = (best, min (real m / 5) 1, found_of text best)"
    "scores text = pre @ (best, m) # post"
    "\<forall>kv \<in> set pre. snd kv < m" "\<forall>kv \<in> set post. snd kv \<le> m"
    by blast
  then show "\<exists>m pre post.
             scores text = pre @ (fst (classify_by_keywords text), m) # post
           \<and> (\<forall>kv \<in> set pre. snd kv < m) \<and> (\<forall>kv \<in> set post. snd kv \<le> m)"
    by (metis fst_conv)
next
  assume "\<not> (\<exists>v \<in> set (map snd (scores text)). 0 < v)"
  then have "\<not> (\<exists>v \<in> set (map snd (scores text)). v \<noteq> 0)" by auto
  then have "classify_by_keywords text = (UNKNOWN, 0, [])"
    by (rule classify_by_keywords_zero)
  then show "fst (classify_by_keywords text) = UNKNOWN" by simp
qed

theorem tie_break_declaration_order_witness:
  "raw_score ''door schedule'' FLOOR_PLAN = 1 \<and> raw_score ''door schedule'' SCHEDULE = 2
   \<and> raw_score ''floor plan schedule'' FLOOR_PLAN = 1
   \<and> raw_score ''floor plan schedule'' SCHEDULE = 1
   \<and> fst (classify_by_keywords ''floor plan schedule'') = FLOOR_PLAN
   \<and> (\<exists>m pre post.
         scores ''floor plan schedule''
           = pre @ (fst (classify_by_keywords ''floor plan schedule''), m) # post
       \<and> (\<forall>kv \<in> set pre. snd kv < m) \<and> (\<forall>kv \<in> set post. snd kv \<le> m))
   \<and> \<not> (\<exists>v \<in> set (map snd (scores ''sheet 12 of 40'')). 0 < v)
   \<and> fst (classify_by_keywords ''sheet 12 of 40'') = UNKNOWN"
proof -
  have h: "\<exists>v \<in> set (map snd (scores ''floor plan schedule'')). 0 < v" by code_simp
  have z: "\<not> (\<exists>v \<in> set (map snd (scores ''sheet 12 of 40'')). 0 < v)" by code_simp
  have e: "raw_score ''door schedule'' FLOOR_PLAN = 1"
    "raw_score ''door schedule'' SCHEDULE = 2"
    "raw_score ''floor plan schedule'' FLOOR_PLAN = 1"
    "raw_score ''floor plan schedule'' SCHEDULE = 1"
    "fst (classify_by_keywords ''floor plan schedule'') = FLOOR_PLAN"
    by code_simp+
  from tie_break_declaration_order [of "''floor plan schedule''"] h
  have "\<exists>m pre post.
         scores ''floor plan schedule''
           = pre @ (fst (classify_by_keywords ''floor plan schedule''), m) # post
       \<and> (\<forall>kv \<in> set pre. snd kv < m) \<and> (\<forall>kv \<in> set post. snd kv \<le> m)"
    by blast
  moreover from tie_break_declaration_order [of "''sheet 12 of 40''"] z
  have "fst (classify_by_keywords ''sheet 12 of 40'') = UNKNOWN" by blast
  ultimately show ?thesis using e z by blast
qed

theorem tie_break_declaration_order_counterexample:
  "scores ''lorem ipsum'' =
     [(COVER, 0), (PROJECT_INFO, 0), (SITE_PLAN, 0), (FLOOR_PLAN, 0), (ELEVATION, 0),
      (SECTION, 0), (ROOF_PLAN, 0), (FOUNDATION, 0), (ELECTRICAL, 0), (PLUMBING, 0),
      (MECHANICAL, 0), (STRUCTURAL, 0), (DETAIL, 0), (SCHEDULE, 0)]
   \<and> fst (classify_by_keywords ''lorem ipsum'') = UNKNOWN
   \<and> fst (classify_by_keywords ''lorem ipsum'') \<noteq> COVER"
  by code_simp

subsection \<open>The keyword baseline\<close>

text \<open>
  C3, as amended. For every text, the raw score of each category is the sum of
  \<open>text.count(keyword)\<close> over the category's keywords that occur in the text. When some
  raw score is positive, \<open>classify_by_keywords\<close> returns a category of maximal raw score
  \<open>m\<close> with confidence \<open>min (m / 5) 1\<close>; when every raw score is zero it returns UNKNOWN
  with confidence 0, not a category of the table.
\<close>

theorem keyword_baseline:
  "scores text =
     map (\<lambda>(c, kws). (c, sum_list (map (count_str text) (filter (\<lambda>k. sublist k text) kws))))
       keywords_tab
   \<and> ((\<exists>v \<in> set (map snd (scores text)). 0 < v) \<longrightarrow>
        (\<exists>m. (fst (classify_by_keywords text), m) \<in> set (scores text)
            \<and> (\<forall>kv \<in> set (scores text). snd kv \<le> m)
            \<and> fst (snd (classify_by_keywords text)) = min (real m / 5) 1))
   \<and> (\<not> (\<exists>v \<in> set (map snd (scores text)). 0 < v) \<longrightarrow>
        fst (classify_by_keywords text) = UNKNOWN \<and> fst (snd (classify_by_keywords text)) = 0)"
proof (intro conjI impI)
  show "scores text =
     map (\<lambda>(c, kws). (c, sum_list (map (count_str text) (filter (\<lambda>k. sublist k text) kws))))
       keywords_tab"
    by (simp add: scores_def scan_keywords_eq)
next
  assume "\<exists>v \<in> set (map snd (scores text)). 0 < v"
  then have "\<exists>v \<in> set (map snd (scores text)). v \<noteq> 0" by auto
  from classify_by_keywords_pos [OF this] obtain best m pre post where
    c: "classify_by_keywords text = (best, min (real m / 5) 1, found_of text best)" and
    s: "scores text = pre @ (best, m) # post" and
    lt: "\<forall>kv \<in> set pre. snd kv < m" and le: "\<forall>kv \<in> set post. snd kv \<le> m"
    by blast
  from s lt le have "\<forall>kv \<in> set (scores text). snd kv \<le> m" by (auto simp: less_imp_le)
  moreover from s have "(best, m) \<in> set (scores text)" by simp
  ultimately show "\<exists>m. (fst (classify_by_keywords text), m) \<in> set (scores text)
            \<and> (\<forall>kv \<in> set (scores text). snd kv \<le> m)
            \<and> fst (snd (classify_by_keywords text)) = min (real m / 5) 1"
    using c by auto
next
  assume "\<not> (\<exists>v \<in> set (map snd (scores text)). 0 < v)"
  then have "\<not> (\<exists>v \<in> set (map snd (scores text)). v \<noteq> 0)" by auto
  then have z: "classify_by_keywords text = (UNKNOWN, 0, [])"
    by (rule classify_by_keywords_zero)
  from z show "fst (classify_by_keywords text) = UNKNOWN" by simp
  from z show "fst (snd (classify_by_keywords text)) = 0" by simp
qed

theorem keyword_baseline_witness:
  "(\<exists>v \<in> set (map snd (scores ''beam beam column a-101'')). 0 < v)
   \<and> (\<exists>m. (fst (classify_by_keywords ''beam beam column a-101''), m)
              \<in> set (scores ''beam beam column a-101'')
         \<and> fst (snd (classify_by_keywords ''beam beam column a-101'')) = min (real m / 5) 1)
   \<and> classify_by_keywords ''beam beam column a-101'' = (STRUCTURAL, 3 / 5, [''beam'', ''column''])
   \<and> \<not> (\<exists>v \<in> set (map snd (scores ''no signal here'')). 0 < v)
   \<and> fst (classify_by_keywords ''no signal here'') = UNKNOWN
   \<and> fst (snd (classify_by_keywords ''no signal here'')) = 0"
proof -
  have p: "\<exists>v \<in> set (map snd (scores ''beam beam column a-101'')). 0 < v" by code_simp
  have e: "classify_by_keywords ''beam beam column a-101''
             = (STRUCTURAL, 3 / 5, [''beam'', ''column''])" by code_simp
  have z: "\<not> (\<exists>v \<in> set (map snd (scores ''no signal here'')). 0 < v)" by code_simp
  from keyword_baseline [of "''beam beam column a-101''"] p
  have "\<exists>m. (fst (classify_by_keywords ''beam beam column a-101''), m)
              \<in> set (scores ''beam beam column a-101'')
         \<and> fst (snd (classify_by_keywords ''beam beam column a-101'')) = min (real m / 5) 1"
    by blast
  moreover from keyword_baseline [of "''no signal here''"] z
  have "fst (classify_by_keywords ''no signal here'') = UNKNOWN
      \<and> fst (snd (classify_by_keywords ''no signal here'')) = 0"
    by blast
  ultimately show ?thesis using p e z by blast
qed

theorem keyword_baseline_counterexample:
  "fst (classify_by_keywords '''') = UNKNOWN
   \<and> fst (classify_by_keywords '''') \<notin> set (map fst (scores ''''))
   \<and> max_key (scores '''') = Some (COVER, 0)"
  by code_simp

subsection \<open>The evidence list\<close>

text \<open>
  C5, as amended. The evidence list of a result is the matched-keyword list of the
  category chosen by the keyword baseline (empty for UNKNOWN), truncated to its first five
  entries; the matched-keyword list of a category holds its keywords that occur in the
  text, in the order of the keyword table. It is the list of the final category whenever
  the final category is the one the keyword baseline chose.
\<close>

theorem evidence_of_keyword_baseline:
  "keywords_found (classify_page text page_num)
     = take 5 (found_of text (fst (classify_by_keywords text)))
   \<and> (\<forall>c kws. (c, kws) \<in> set keywords_tab \<longrightarrow>
         found_of text c = filter (\<lambda>k. sublist k text) kws)
   \<and> found_of text UNKNOWN = []
   \<and> (classification (classify_page text page_num) = fst (classify_by_keywords text) \<longrightarrow>
        keywords_found (classify_page text page_num)
          = take 5 (found_of text (classification (classify_page text page_num))))"
proof -
  have "keywords_found (classify_page text page_num)
     = take 5 (found_of text (fst (classify_by_keywords text)))"
    using classify_page_unfold [OF classify_by_keywords_shape [of "text"]] by simp
  then show ?thesis by (simp add: found_of_table found_of_unknown)
qed

theorem evidence_of_keyword_baseline_witness:
  "(STRUCTURAL, [''structural'', ''framing'', ''beam'', ''column'', ''truss'', ''steel'',
        ''concrete'', ''reinforcing'']) \<in> set keywords_tab
   \<and> classification (classify_page ''steel truss column beam framing structural'' 3)
       = fst (classify_by_keywords ''steel truss column beam framing structural'')
   \<and> found_of ''steel truss column beam framing structural'' STRUCTURAL
       = [''structural'', ''framing'', ''beam'', ''column'', ''truss'', ''steel'']
   \<and> keywords_found (classify_page ''steel truss column beam framing structural'' 3)
       = [''structural'', ''framing'', ''beam'', ''column'', ''truss'']"
proof -
  have m: "(STRUCTURAL, [''structural'', ''framing'', ''beam'', ''column'', ''truss'', ''steel'',
        ''concrete'', ''reinforcing'']) \<in> set keywords_tab"
    by (simp add: keywords_tab_def)
  have c: "classification (classify_page ''steel truss column beam framing structural'' 3)
       = fst (classify_by_keywords ''steel truss column beam framing structural'')"
    "fst (classify_by_keywords ''steel truss column beam framing structural'') = STRUCTURAL"
    by code_simp+
  have f: "found_of ''steel truss column beam framing structural'' STRUCTURAL
       = [''structural'', ''framing'', ''beam'', ''column'', ''truss'', ''steel'']"
    by code_simp
  from evidence_of_keyword_baseline [of "''steel truss column beam framing structural''" 3] c f
  have "keywords_found (classify_page ''steel truss column beam framing structural'' 3)
       = [''structural'', ''framing'', ''beam'', ''column'', ''truss'']"
    by simp
  with m c f show ?thesis by blast
qed

theorem evidence_of_final_category_counterexample:
  "classification (classify_page ''beam a-101'' 2) = FLOOR_PLAN
   \<and> keywords_found (classify_page ''beam a-101'' 2) = [''beam'']
   \<and> take 5 (found_of ''beam a-101'' FLOOR_PLAN) = []
   \<and> classification (classify_page ''floor plan floor plan cover'' 1) = COVER
   \<and> keywords_found (classify_page ''floor plan floor plan cover'' 1) = [''floor plan'']
   \<and> take 5 (found_of ''floor plan floor plan cover'' COVER) = [''cover'']"
  by code_simp

subsection \<open>Texts without signal\<close>

text \<open>
  C4. A text that is empty or consists of whitespace only, and more generally a text in
  which no keyword of the table occurs and no drawing number is found, is classified
  UNKNOWN with confidence 0 and an empty evidence list. The model of \<open>classify_page\<close> is
  a total function: the source has no raising operation on this path (\<open>max\<close> is applied to
  a dict with fourteen keys, and \<open>drawing_num[0]\<close> is guarded).
\<close>

theorem no_signal_unknown:
  assumes "(\<forall>c \<in> set text. is_space c)
         \<or> ((\<forall>k \<in> set (concat (map snd keywords_tab)). \<not> sublist k text)
            \<and> extract_drawing_number text = None)"
  shows "classify_page text page_num =
     \<lparr> page_number = page_num, classification = UNKNOWN, confidence = 0, keywords_found = [],
       drawing_number = None \<rparr>"
  using assms
proof
  assume sp: "\<forall>c \<in> set text. is_space c"
  have "\<not> sublist k text" if k: "k \<in> set (concat (map snd keywords_tab))" for k
  proof
    assume sub: "sublist k text"
    from k keywords_start_lower have ne: "k \<noteq> []" and low: "is_lower (hd k)" by blast+
    from sub ne have "hd k \<in> set text" by (rule sublist_hd_mem)
    with sp have "is_space (hd k)" by blast
    with low show False by (simp add: space_not_letter)
  qed
  moreover have "extract_drawing_number text = None"
  proof (rule extract_drawing_number_None, rule ballI)
    fix c assume "c \<in> set text"
    with sp have "is_space c" by blast
    then have "upper_char c = [c]" and "\<not> is_upper c"
      by (simp_all add: upper_char_space space_not_letter)
    then show "\<forall>u \<in> set (upper_char c). \<not> is_upper u" by simp
  qed
  ultimately show ?thesis by (simp add: no_signal)
next
  assume "(\<forall>k \<in> set (concat (map snd keywords_tab)). \<not> sublist k text)
            \<and> extract_drawing_number text = None"
  then show ?thesis by (simp add: no_signal)
qed

theorem no_signal_unknown_witness:
  "classify_page '''' 1 =
     \<lparr> page_number = 1, classification = UNKNOWN, confidence = 0, keywords_found = [],
       drawing_number = None \<rparr>
   \<and> (is_space (CHR '' '') \<and> is_space (CHR 0x0A) \<and> is_space (CHR 0x09))
   \<and> classify_page [CHR '' '', CHR 0x0A, CHR 0x09, CHR '' ''] 1 =
     \<lparr> page_number = 1, classification = UNKNOWN, confidence = 0, keywords_found = [],
       drawing_number = None \<rparr>
   \<and> extract_drawing_number ''lorem ipsum 12 dolor'' = None
   \<and> classify_page ''lorem ipsum 12 dolor'' 4 =
     \<lparr> page_number = 4, classification = UNKNOWN, confidence = 0, keywords_found = [],
       drawing_number = None \<rparr>"
proof -
  have s: "is_space (CHR '' '')" "is_space (CHR 0x0A)" "is_space (CHR 0x09)"
    by (simp_all add: is_space_def)
  have k: "\<forall>k \<in> set (concat (map snd keywords_tab)). \<not> sublist k ''lorem ipsum 12 dolor''"
    by code_simp
  have d: "extract_drawing_number ''lorem ipsum 12 dolor'' = None" by code_simp
  have "classify_page '''' 1 =
     \<lparr> page_number = 1, classification = UNKNOWN, confidence = 0, keywords_found = [],
       drawing_number = None \<rparr>"
    by (rule no_signal_unknown) simp
  moreover have "classify_page [CHR '' '', CHR 0x0A, CHR 0x09, CHR '' ''] 1 =
     \<lparr> page_number = 1, classification = UNKNOWN, confidence = 0, keywords_found = [],
       drawing_number = None \<rparr>"
    by (rule no_signal_unknown) (simp add: s)
  moreover have "classify_page ''lorem ipsum 12 dolor'' 4 =
     \<lparr> page_number = 4, classification = UNKNOWN, confidence = 0, keywords_found = [],
       drawing_number = None \<rparr>"
    by (rule no_signal_unknown) (use k d in blast)
  ultimately show ?thesis using s d by blast
qed

subsection \<open>Fusion with the drawing-number prefix\<close>

text \<open>
  C2, as amended. Unless the cover override applies (page 1 and "cover" in the text),
  for a text with an extracted drawing number: if its first letter maps to a category and
  the keyword confidence is below 0.5, the result is that category with confidence 0.7;
  if the keyword confidence is at least 0.5 and the prefix category is the keyword
  category, the result is the keyword category with confidence \<open>min (kc + 0.2) 1\<close>; if the
  keyword confidence is at least 0.5 and the two categories differ, the keyword result is
  returned unchanged; if the letter is not in the prefix table (A, S, E, M, P, L, C), no
  category is inferred and the keyword result is returned unchanged.
\<close>

theorem prefix_fusion:
  assumes "\<not> (page_num = 1 \<and> sublist ''cover'' text)"
    and "classify_by_keywords text = (keyword_type, keyword_confidence, found)"
    and "extract_drawing_number text = Some d"
  shows "(\<forall>p. classify_by_drawing_number d = Some p \<and> keyword_confidence < 0.5 \<longrightarrow>
            classification (classify_page text page_num) = p
          \<and> confidence (classify_page text page_num) = 0.7)
       \<and> (classify_by_drawing_number d = Some keyword_type \<and> 0.5 \<le> keyword_confidence \<longrightarrow>
            classification (classify_page text page_num) = keyword_type
          \<and> confidence (classify_page text page_num) = min (keyword_confidence + 0.2) 1)
       \<and> (\<forall>p. classify_by_drawing_number d = Some p \<and> p \<noteq> keyword_type
              \<and> 0.5 \<le> keyword_confidence \<longrightarrow>
            classification (classify_page text page_num) = keyword_type
          \<and> confidence (classify_page text page_num) = keyword_confidence)
       \<and> (classify_by_drawing_number d = None \<longrightarrow>
            classification (classify_page text page_num) = keyword_type
          \<and> confidence (classify_page text page_num) = keyword_confidence)
       \<and> ((classify_by_drawing_number d = None) = (hd d \<notin> set ''ASEMPLC''))"
proof -
  from extract_drawing_number_Some [OF assms(3)] obtain c rest where
    d: "d = c # rest" and up: "is_upper c"
    by (cases d) auto
  have tab: "(classify_by_drawing_number d = None) = (hd d \<notin> set ''ASEMPLC'')"
    unfolding d
    by (simp only: list.sel classify_by_drawing_number_upper [OF up] prefix_table_None)
  from assms(1) have r:
    "classification (classify_page text page_num)
       = fst (combine (classify_by_drawing_number d) keyword_type keyword_confidence)"
    "confidence (classify_page text page_num)
       = snd (combine (classify_by_drawing_number d) keyword_type keyword_confidence)"
    by (auto simp: classify_page_unfold [OF assms(2)] assms(3))
  show ?thesis
    unfolding r using tab by (auto simp: combine_def)
qed

theorem prefix_fusion_witness:
  "(classification (classify_page ''beam a-101'' 2) = FLOOR_PLAN
      \<and> confidence (classify_page ''beam a-101'' 2) = 0.7)
   \<and> (classification (classify_page ''floor plan layout partition a-101'' 2) = FLOOR_PLAN
      \<and> confidence (classify_page ''floor plan layout partition a-101'' 2) = 4 / 5)
   \<and> (classification (classify_page ''beam beam beam a-101'' 2) = STRUCTURAL
      \<and> confidence (classify_page ''beam beam beam a-101'' 2) = 3 / 5)
   \<and> (classify_by_drawing_number ''X-101'' = None
      \<and> classification (classify_page ''beam x-101'' 2) = STRUCTURAL
      \<and> confidence (classify_page ''beam x-101'' 2) = 1 / 5)
   \<and> (extract_drawing_number (CHR 0xDF # ''-101 a101'') = Some ''S-101''
      \<and> classification (classify_page (CHR 0xDF # ''-101 a101'') 2) = STRUCTURAL
      \<and> confidence (classify_page (CHR 0xDF # ''-101 a101'') 2) = 0.7)"
proof -
  have n: "\<not> ((2::int) = 1 \<and> sublist ''cover'' t)" for t by simp
  have k1: "classify_by_keywords ''beam a-101'' = (STRUCTURAL, 1 / 5, [''beam''])"
    and d1: "extract_drawing_number ''beam a-101'' = Some ''A-101''"
    and k2: "classify_by_keywords ''floor plan layout partition a-101''
               = (FLOOR_PLAN, 3 / 5, [''floor plan'', ''layout'', ''partition''])"
    and d2: "extract_drawing_number ''floor plan layout partition a-101'' = Some ''A-101''"
    and k3: "classify_by_keywords ''beam beam beam a-101'' = (STRUCTURAL, 3 / 5, [''beam''])"
    and d3: "extract_drawing_number ''beam beam beam a-101'' = Some ''A-101''"
    and k4: "classify_by_keywords ''beam x-101'' = (STRUCTURAL, 1 / 5, [''beam''])"
    and d4: "extract_drawing_number ''beam x-101'' = Some ''X-101''"
    and p: "classify_by_drawing_number ''A-101'' = Some FLOOR_PLAN"
    and q: "classify_by_drawing_number ''X-101'' = None"
    and k5: "classify_by_keywords (CHR 0xDF # ''-101 a101'') = (UNKNOWN, 0, [])"
    and d5: "extract_drawing_number (CHR 0xDF # ''-101 a101'') = Some ''S-101''"
    and p5: "classify_by_drawing_number ''S-101'' = Some STRUCTURAL"
    by code_simp+
  from prefix_fusion [OF n k1 d1] p
  have "classification (classify_page ''beam a-101'' 2) = FLOOR_PLAN
      \<and> confidence (classify_page ''beam a-101'' 2) = 0.7"
    by simp
  moreover from prefix_fusion [OF n k2 d2] p
  have "classification (classify_page ''floor plan layout partition a-101'' 2) = FLOOR_PLAN
      \<and> confidence (classify_page ''floor plan layout partition a-101'' 2) = 4 / 5"
    by simp
  moreover from prefix_fusion [OF n k3 d3] p
  have "classification (classify_page ''beam beam beam a-101'' 2) = STRUCTURAL
      \<and> confidence (classify_page ''beam beam beam a-101'' 2) = 3 / 5"
    by simp
  moreover from prefix_fusion [OF n k4 d4] q
  have "classification (classify_page ''beam x-101'' 2) = STRUCTURAL
      \<and> confidence (classify_page ''beam x-101'' 2) = 1 / 5"
    by simp
  moreover from prefix_fusion [OF n k5 d5] p5
  have "classification (classify_page (CHR 0xDF # ''-101 a101'') 2) = STRUCTURAL
      \<and> confidence (classify_page (CHR 0xDF # ''-101 a101'') 2) = 0.7"
    by simp
  ultimately show ?thesis using q d5 by blast
qed

theorem prefix_fusion_counterexample:
  "extract_drawing_number ''cover a-101'' = Some ''A-101''
   \<and> classify_by_drawing_number ''A-101'' = Some FLOOR_PLAN
   \<and> classify_by_keywords ''cover a-101'' = (COVER, 1 / 5, [''cover''])
   \<and> classification (classify_page ''cover a-101'' 1) = COVER
   \<and> confidence (classify_page ''cover a-101'' 1) = 9 / 10
   \<and> extract_drawing_number ''floor plan a-101'' = Some ''A-101''
   \<and> classify_by_keywords ''floor plan a-101'' = (FLOOR_PLAN, 1 / 5, [''floor plan''])
   \<and> classification (classify_page ''floor plan a-101'' 2) = FLOOR_PLAN
   \<and> confidence (classify_page ''floor plan a-101'' 2) = 7 / 10"
  by code_simp

subsection \<open>Monotonicity of the confidence\<close>




section \<open>Properties of the zone-weighted classifier\<close>

subsection \<open>Auxiliary facts\<close>

lemma score_of_Nil: "score_of [] k = 0"
  by (simp add: score_of_def)

lemma score_of_bump: "score_of (bump sc k n) k' = score_of sc k' + (if k = k' then n else 0)"
  by (induction sc k n rule: bump.induct) (auto simp: score_of_def)

lemma score_of_scan_tags:
  "score_of (scan_tags w txt category sc tags) k
     = score_of sc k + (if category = k then w * hits tags txt else 0)"
proof -
  have "score_of (foldl (\<lambda>sc tag. if sublist tag txt then bump sc category w else sc) sc tags) k
     = score_of sc k + (if category = k then w * length (filter (\<lambda>tag. sublist tag txt) tags) else 0)"
    by (induction tags arbitrary: sc) (simp_all add: score_of_bump)
  then show ?thesis by (simp add: scan_tags_def hits_def)
qed

text \<open>The points one text gives to a category, over a table with distinct keys.\<close>

lemma score_of_scan_table:
  "score_of (foldl (\<lambda>sc (category, tags). scan_tags w txt category sc tags) sc tab) k
     = score_of sc k
       + w * sum_list (map (\<lambda>(category, tags). if category = k then hits tags txt else 0) tab)"
  by (induction tab arbitrary: sc)
     (auto simp: score_of_scan_tags case_prod_unfold distrib_left)

lemma table_hits:
  "distinct (map fst tab) \<Longrightarrow> (k, tags) \<in> set tab \<Longrightarrow>
     sum_list (map (\<lambda>(category, tags). if category = k then hits tags txt else 0) tab)
       = hits tags txt"
proof (induction tab)
  case Nil
  then show ?case by simp
next
  case (Cons e tab)
  show ?case
  proof (cases "e = (k, tags)")
    case True
    with Cons.prems have "k \<notin> fst ` set tab" by simp
    then have "sum_list (map (\<lambda>(category, tags). if category = k then hits tags txt else 0) tab) = 0"
      by (induction tab) auto
    with True show ?thesis by simp
  next
    case False
    with Cons.prems have "(k, tags) \<in> set tab" and "fst e \<noteq> k"
      by (auto simp: image_iff)
    with Cons show ?thesis by (simp add: case_prod_unfold)
  qed
qed

lemma KEYWORDS_distinct: "distinct (map fst KEYWORDS)"
  by (simp add: KEYWORDS_def)

lemma KEYWORDS_tags_distinct: "(k, tags) \<in> set KEYWORDS \<Longrightarrow> distinct tags"
  by (auto simp: KEYWORDS_def)

lemma score_of_scan_text:
  assumes "(k, tags) \<in> set KEYWORDS"
  shows "score_of (scan_text w txt sc) k = score_of sc k + w * hits tags txt"
  by (simp add: scan_text_def score_of_scan_table table_hits [OF KEYWORDS_distinct assms])

lemma score_of_zone_loop:
  assumes "(k, tags) \<in> set KEYWORDS"
  shows "score_of (scan_zones zones sc) k
           = score_of sc k + 3 * sum_list (map (hits tags) zones)"
  by (induction zones arbitrary: sc) (simp_all add: score_of_scan_text [OF assms])

lemma score_of_keyword_scores:
  assumes "(k, tags) \<in> set KEYWORDS"
  shows "score_of (keyword_scores zones full) k
           = 3 * sum_list (map (hits tags) zones) + hits tags full"
  by (simp add: keyword_scores_def score_of_scan_text [OF assms] score_of_zone_loop [OF assms]
        score_of_Nil)

lemma score_of_page_scores:
  "score_of (page_scores zones full) k
     = score_of (keyword_scores zones full) k
       + (if 2000 < length full \<and> k = ''GENERAL_NOTES'' then 3 else 0)"
  by (auto simp: page_scores_def score_of_bump)

text \<open>A text in which no tag occurs leaves the scores as they are.\<close>

lemma scan_tags_none:
  "\<forall>tag \<in> set tags. \<not> sublist tag txt \<Longrightarrow> scan_tags w txt category sc tags = sc"
  unfolding scan_tags_def by (induction tags) simp_all

lemma scan_table_none:
  "\<forall>tag \<in> set (concat (map snd tab)). \<not> sublist tag txt \<Longrightarrow>
     foldl (\<lambda>sc (category, tags). scan_tags w txt category sc tags) sc tab = sc"
  by (induction tab) (auto simp: scan_tags_none)

lemma scan_text_none:
  "\<forall>tag \<in> set (concat (map snd KEYWORDS)). \<not> sublist tag txt \<Longrightarrow> scan_text w txt sc = sc"
  unfolding scan_text_def by (rule scan_table_none)

lemma zone_loop_none:
  "\<forall>z \<in> set zones. \<forall>tag \<in> set (concat (map snd KEYWORDS)). \<not> sublist tag z \<Longrightarrow>
     scan_zones zones sc = sc"
  by (induction zones) (simp_all add: scan_text_none)

lemma keyword_scores_none:
  assumes "\<forall>tag \<in> set (concat (map snd KEYWORDS)).
             \<not> sublist tag full \<and> (\<forall>z \<in> set zones. \<not> sublist tag z)"
  shows "keyword_scores zones full = []"
proof -
  from assms have "\<forall>z \<in> set zones. \<forall>tag \<in> set (concat (map snd KEYWORDS)). \<not> sublist tag z"
    and "\<forall>tag \<in> set (concat (map snd KEYWORDS)). \<not> sublist tag full"
    by blast+
  then show ?thesis by (simp add: keyword_scores_def zone_loop_none scan_text_none)
qed

lemma hits_none: "\<forall>tag \<in> set tags. \<not> sublist tag txt \<Longrightarrow> hits tags txt = 0"
  by (simp add: hits_def filter_empty_conv)

lemma hits_single:
  assumes "distinct tags" and "tag \<in> set tags" and "sublist tag txt"
    and "\<forall>t \<in> set tags. sublist t txt \<longrightarrow> t = tag"
  shows "hits tags txt = 1"
proof -
  from assms(3,4) have "filter (\<lambda>t. sublist t txt) tags = filter (\<lambda>t. t = tag) tags"
    by (intro filter_cong) auto
  moreover from assms(1,2) have "length (filter (\<lambda>t. t = tag) tags) = 1"
    by (induction tags) (auto simp: filter_empty_conv)
  ultimately show ?thesis by (simp add: hits_def)
qed

lemma tags_start:
  "\<forall>tag \<in> set (concat (map snd KEYWORDS)). tag \<noteq> [] \<and> is_lower (hd tag) \<and> hd tag \<noteq> CHR ''x''"
  by code_simp

text \<open>Padding a text with a character that a tag does not contain adds no occurrence.\<close>

lemma sublist_snoc_other:
  assumes "x \<notin> set t"
  shows "sublist t (u @ [x]) = sublist t u"
proof
  assume "sublist t u"
  then show "sublist t (u @ [x])" by (auto simp: sublist_append)
next
  assume "sublist t (u @ [x])"
  then consider "sublist t u" | "sublist t [x]"
    | t1 t2 where "t = t1 @ t2" "suffix t1 u" "prefix t2 [x]"
    by (auto simp: sublist_append)
  then show "sublist t u"
  proof cases
    case 1
    then show ?thesis .
  next
    case 2
    with assms have "t = []" by (cases t) (auto simp: sublist_Cons_right)
    then show ?thesis by simp
  next
    case 3
    with assms have "t2 = []" by (cases t2) auto
    with 3 show ?thesis by simp
  qed
qed

lemma sublist_padding: "x \<notin> set t \<Longrightarrow> sublist t (u @ replicate n x) = sublist t u"
proof (induction n)
  case 0
  then show ?case by simp
next
  case (Suc n)
  have e: "u @ replicate (Suc n) x = (u @ replicate n x) @ [x]"
    by (simp add: replicate_append_same)
  from Suc.prems have "sublist t ((u @ replicate n x) @ [x]) = sublist t (u @ replicate n x)"
    by (rule sublist_snoc_other)
  also have "\<dots> = sublist t u" using Suc.prems by (rule Suc.IH)
  finally show ?case unfolding e .
qed

subsection \<open>The text-density bonus\<close>

text \<open>
  C7. When the full text of a page is longer than 2000 characters, the density step adds
  3 to the score of GENERAL_NOTES and leaves every other score as it is. A page on which
  no tag of the table occurs, in the full text or in a zone, is classified GENERAL_NOTES
  when its full text is longer than 2000 characters, and UNKNOWN otherwise.
\<close>

theorem density_bonus:
  "(2000 < length full_text \<longrightarrow>
      score_of (page_scores zone_text full_text) ''GENERAL_NOTES''
        = score_of (keyword_scores zone_text full_text) ''GENERAL_NOTES'' + 3
    \<and> (\<forall>c. c \<noteq> ''GENERAL_NOTES'' \<longrightarrow>
          score_of (page_scores zone_text full_text) c
            = score_of (keyword_scores zone_text full_text) c))
   \<and> ((\<forall>tag \<in> set (concat (map snd KEYWORDS)).
          \<not> sublist tag full_text \<and> (\<forall>z \<in> set zone_text. \<not> sublist tag z)) \<longrightarrow>
        classify_page_app zone_text full_text
          = (if 2000 < length full_text then ''GENERAL_NOTES'' else ''UNKNOWN''))"
proof (intro conjI impI allI)
  assume "2000 < length full_text"
  then show "score_of (page_scores zone_text full_text) ''GENERAL_NOTES''
        = score_of (keyword_scores zone_text full_text) ''GENERAL_NOTES'' + 3"
    by (simp add: score_of_page_scores)
next
  fix c :: string
  assume "c \<noteq> ''GENERAL_NOTES''"
  then show "score_of (page_scores zone_text full_text) c
            = score_of (keyword_scores zone_text full_text) c"
    by (simp add: score_of_page_scores)
next
  assume "\<forall>tag \<in> set (concat (map snd KEYWORDS)).
          \<not> sublist tag full_text \<and> (\<forall>z \<in> set zone_text. \<not> sublist tag z)"
  then have "keyword_scores zone_text full_text = []" by (rule keyword_scores_none)
  then show "classify_page_app zone_text full_text
          = (if 2000 < length full_text then ''GENERAL_NOTES'' else ''UNKNOWN'')"
    by (simp add: classify_page_app_def page_scores_def max_key_def)
qed

theorem density_bonus_witness:
  "2000 < length (replicate 2001 (CHR ''x''))
   \<and> score_of (page_scores ['''', '''', '''', ''''] (replicate 2001 (CHR ''x''))) ''GENERAL_NOTES''
       = score_of (keyword_scores ['''', '''', '''', ''''] (replicate 2001 (CHR ''x'')))
           ''GENERAL_NOTES'' + 3
   \<and> classify_page_app ['''', '''', '''', ''''] (replicate 2001 (CHR ''x'')) = ''GENERAL_NOTES''
   \<and> classify_page_app ['''', '''', '''', ''''] (replicate 12 (CHR ''x'')) = ''UNKNOWN''"
proof -
  have free: "\<forall>tag \<in> set (concat (map snd KEYWORDS)).
      \<not> sublist tag (replicate n (CHR ''x'')) \<and> (\<forall>z \<in> set ['''', '''', '''', '''']. \<not> sublist tag z)"
    for n
  proof (rule ballI)
    fix tag assume t: "tag \<in> set (concat (map snd KEYWORDS))"
    from t tags_start have ne: "tag \<noteq> []" and x: "hd tag \<noteq> CHR ''x''" by blast+
    have "\<not> sublist tag (replicate n (CHR ''x''))"
    proof
      assume "sublist tag (replicate n (CHR ''x''))"
      from this ne have "hd tag \<in> set (replicate n (CHR ''x''))" by (rule sublist_hd_mem)
      then have "hd tag = CHR ''x''" by (simp only: in_set_replicate)
      with x show False by contradiction
    qed
    moreover from ne have "\<forall>z \<in> set ['''', '''', '''', '''']. \<not> sublist tag z" by simp
    ultimately show "\<not> sublist tag (replicate n (CHR ''x''))
        \<and> (\<forall>z \<in> set ['''', '''', '''', '''']. \<not> sublist tag z)"
      by (rule conjI)
  qed
  have len: "2000 < length (replicate 2001 (CHR ''x''))"
    unfolding length_replicate by simp
  have short: "\<not> 2000 < length (replicate 12 (CHR ''x''))"
    unfolding length_replicate by simp
  note long_page = density_bonus [of "replicate 2001 (CHR ''x'')" "['''', '''', '''', '''']"]
  note short_page = density_bonus [of "replicate 12 (CHR ''x'')" "['''', '''', '''', '''']"]
  have s: "score_of (page_scores ['''', '''', '''', ''''] (replicate 2001 (CHR ''x''))) ''GENERAL_NOTES''
       = score_of (keyword_scores ['''', '''', '''', ''''] (replicate 2001 (CHR ''x'')))
           ''GENERAL_NOTES'' + 3"
    by (rule long_page [THEN conjunct1, THEN mp, OF len, THEN conjunct1])
  have "classify_page_app ['''', '''', '''', ''''] (replicate 2001 (CHR ''x''))
          = (if 2000 < length (replicate 2001 (CHR ''x'')) then ''GENERAL_NOTES'' else ''UNKNOWN'')"
    by (rule long_page [THEN conjunct2, THEN mp, OF free])
  with len have g: "classify_page_app ['''', '''', '''', ''''] (replicate 2001 (CHR ''x''))
          = ''GENERAL_NOTES''"
    by (simp only: if_True)
  have "classify_page_app ['''', '''', '''', ''''] (replicate 12 (CHR ''x''))
          = (if 2000 < length (replicate 12 (CHR ''x'')) then ''GENERAL_NOTES'' else ''UNKNOWN'')"
    by (rule short_page [THEN conjunct2, THEN mp, OF free])
  with short have u: "classify_page_app ['''', '''', '''', ''''] (replicate 12 (CHR ''x''))
          = ''UNKNOWN''"
    by (simp only: if_False)
  from len s g u show ?thesis by (intro conjI)
qed

subsection \<open>Zone weighting\<close>

text \<open>
  C8, as amended. Each keyword of a category that occurs in the text of a title-block zone
  adds 3 points to the score of the category, and each keyword that occurs in the full
  text adds 1 point; the density step then adds 3 to GENERAL_NOTES when the full text is
  longer than 2000 characters. Take a page where keywords of the category occur in one
  zone only, \<open>hits tags z\<close> of them and \<open>tag\<close> among them, and a page where the same keywords
  occur in the full text only. The keyword loops give the category \<open>3 * hits tags z\<close>
  points on the first page and \<open>hits tags z\<close> on the second, 3 against 1 when \<open>tag\<close> is the
  only one. The final score is strictly higher on the first page, except when the category
  is GENERAL_NOTES, a single keyword occurs, and only the second page has a full text
  longer than 2000 characters.
\<close>

theorem zone_outweighs_body:
  assumes "(category, tags) \<in> set KEYWORDS" and "tag \<in> set tags"
    and "zonesA = pre @ z # post"
    and "sublist tag z"
    and "\<forall>z' \<in> set pre \<union> set post. \<forall>t \<in> set tags. \<not> sublist t z'"
    and "\<forall>t \<in> set tags. \<not> sublist t fullA"
    and "\<forall>z' \<in> set zonesB. \<forall>t \<in> set tags. \<not> sublist t z'"
    and "\<forall>t \<in> set tags. sublist t fullB = sublist t z"
  shows "1 \<le> hits tags z
       \<and> score_of (keyword_scores zonesA fullA) category = 3 * hits tags z
       \<and> score_of (keyword_scores zonesB fullB) category = hits tags z
       \<and> ((\<forall>t \<in> set tags. sublist t z \<longrightarrow> t = tag) \<longrightarrow>
            score_of (keyword_scores zonesA fullA) category = 3
          \<and> score_of (keyword_scores zonesB fullB) category = 1)
       \<and> score_of (page_scores zonesA fullA) category
           = 3 * hits tags z
             + (if 2000 < length fullA \<and> category = ''GENERAL_NOTES'' then 3 else 0)
       \<and> score_of (page_scores zonesB fullB) category
           = hits tags z
             + (if 2000 < length fullB \<and> category = ''GENERAL_NOTES'' then 3 else 0)
       \<and> ((score_of (page_scores zonesB fullB) category
              < score_of (page_scores zonesA fullA) category)
           = (\<not> (category = ''GENERAL_NOTES'' \<and> hits tags z = 1
                  \<and> 2000 < length fullB \<and> \<not> 2000 < length fullA)))"
proof -
  from assms(1) have dist: "distinct tags" by (rule KEYWORDS_tags_distinct)
  have zero: "sum_list (map (hits tags) zs) = 0"
    if "\<forall>z' \<in> set zs. \<forall>t \<in> set tags. \<not> sublist t z'" for zs
    using that by (induction zs) (simp_all add: hits_none)
  from assms(2,4) have "tag \<in> set (filter (\<lambda>t. sublist t z) tags)" by simp
  then have "0 < length (filter (\<lambda>t. sublist t z) tags)" by (rule length_pos_if_in_set)
  then have "0 < hits tags z" unfolding hits_def .
  then have pos: "1 \<le> hits tags z" by simp
  from assms(5) have "sum_list (map (hits tags) pre) = 0" "sum_list (map (hits tags) post) = 0"
    by (simp_all add: zero)
  then have "sum_list (map (hits tags) zonesA) = hits tags z" by (simp add: assms(3))
  moreover from assms(6) have "hits tags fullA = 0" by (rule hits_none)
  ultimately have a: "score_of (keyword_scores zonesA fullA) category = 3 * hits tags z"
    by (simp add: score_of_keyword_scores [OF assms(1)])
  from assms(7) have "sum_list (map (hits tags) zonesB) = 0" by (rule zero)
  moreover from assms(8) have "filter (\<lambda>t. sublist t fullB) tags = filter (\<lambda>t. sublist t z) tags"
    by (intro filter_cong) auto
  then have "hits tags fullB = hits tags z" by (simp add: hits_def)
  ultimately have b: "score_of (keyword_scores zonesB fullB) category = hits tags z"
    by (simp add: score_of_keyword_scores [OF assms(1)])
  have single: "hits tags z = 1" if "\<forall>t \<in> set tags. sublist t z \<longrightarrow> t = tag"
    using dist assms(2,4) that by (rule hits_single)
  have pa: "score_of (page_scores zonesA fullA) category
           = 3 * hits tags z
             + (if 2000 < length fullA \<and> category = ''GENERAL_NOTES'' then 3 else 0)"
    by (simp only: score_of_page_scores a)
  have pb: "score_of (page_scores zonesB fullB) category
           = hits tags z
             + (if 2000 < length fullB \<and> category = ''GENERAL_NOTES'' then 3 else 0)"
    by (simp only: score_of_page_scores b)
  have cmp: "(score_of (page_scores zonesB fullB) category
              < score_of (page_scores zonesA fullA) category)
           = (\<not> (category = ''GENERAL_NOTES'' \<and> hits tags z = 1
                  \<and> 2000 < length fullB \<and> \<not> 2000 < length fullA))"
    unfolding pa pb using pos by (auto split: if_splits)
  from pos a b single pa pb cmp show ?thesis by (simp only: simp_thms) simp
qed

theorem zone_outweighs_body_witness:
  "hits [''elevation'', ''north elevation'', ''south elevation'', ''east elevation'',
         ''west elevation''] ''sheet a-2 north elevation'' = 2
   \<and> score_of (keyword_scores ['''', ''sheet a-2 north elevation'', '''', ''''] ''plan view'')
        ''ELEVATION'' = 6
   \<and> score_of (keyword_scores ['''', '''', '''', ''''] ''plan north elevation'') ''ELEVATION'' = 2
   \<and> score_of (page_scores ['''', '''', '''', ''''] ''plan north elevation'') ''ELEVATION''
       < score_of (page_scores ['''', ''sheet a-2 north elevation'', '''', ''''] ''plan view'')
           ''ELEVATION''
   \<and> score_of (keyword_scores ['''', ''sheet a-2 footing'', '''', ''''] ''plan view'')
        ''FOUNDATION'' = 3
   \<and> score_of (keyword_scores ['''', '''', '''', ''''] ''plan view footing'') ''FOUNDATION'' = 1"
proof -
  have m: "(''ELEVATION'', [''elevation'', ''north elevation'', ''south elevation'',
              ''east elevation'', ''west elevation'']) \<in> set KEYWORDS"
    by (simp add: KEYWORDS_def)
  have t: "''north elevation'' \<in> set [''elevation'', ''north elevation'', ''south elevation'',
              ''east elevation'', ''west elevation'']"
    by simp
  have za: "['''', ''sheet a-2 north elevation'', '''', '''']
              = [''''] @ ''sheet a-2 north elevation'' # ['''', '''']"
    by simp
  have z1: "sublist ''north elevation'' ''sheet a-2 north elevation''" by code_simp
  have z3: "\<forall>z' \<in> set [''''] \<union> set ['''', ''''].
              \<forall>t \<in> set [''elevation'', ''north elevation'', ''south elevation'',
                ''east elevation'', ''west elevation'']. \<not> sublist t z'"
    by simp
  have fa: "\<forall>t \<in> set [''elevation'', ''north elevation'', ''south elevation'',
              ''east elevation'', ''west elevation'']. \<not> sublist t ''plan view''"
    by code_simp
  have zb: "\<forall>z' \<in> set ['''', '''', '''', ''''].
              \<forall>t \<in> set [''elevation'', ''north elevation'', ''south elevation'',
                ''east elevation'', ''west elevation'']. \<not> sublist t z'"
    by simp
  have same: "\<forall>t \<in> set [''elevation'', ''north elevation'', ''south elevation'',
              ''east elevation'', ''west elevation''].
                sublist t ''plan north elevation'' = sublist t ''sheet a-2 north elevation''"
    by code_simp
  have h: "hits [''elevation'', ''north elevation'', ''south elevation'', ''east elevation'',
         ''west elevation''] ''sheet a-2 north elevation'' = 2"
    by code_simp
  have len: "\<not> 2000 < length ''plan north elevation''" by simp
  note elev = zone_outweighs_body [OF m t za z1 z3 fa zb same]
  have m': "(''FOUNDATION'', [''foundation plan'', ''foundation'', ''footing'', ''slab on grade''])
             \<in> set KEYWORDS"
    by (simp add: KEYWORDS_def)
  have t': "''footing'' \<in> set [''foundation plan'', ''foundation'', ''footing'', ''slab on grade'']"
    by simp
  have za': "['''', ''sheet a-2 footing'', '''', ''''] = [''''] @ ''sheet a-2 footing'' # ['''', '''']"
    by simp
  have z1': "sublist ''footing'' ''sheet a-2 footing''" by code_simp
  have z2': "\<forall>t \<in> set [''foundation plan'', ''foundation'', ''footing'', ''slab on grade''].
              sublist t ''sheet a-2 footing'' \<longrightarrow> t = ''footing''"
    by code_simp
  have z3': "\<forall>z' \<in> set [''''] \<union> set ['''', ''''].
              \<forall>t \<in> set [''foundation plan'', ''foundation'', ''footing'', ''slab on grade''].
                \<not> sublist t z'"
    by simp
  have fa': "\<forall>t \<in> set [''foundation plan'', ''foundation'', ''footing'', ''slab on grade''].
              \<not> sublist t ''plan view''"
    by code_simp
  have zb': "\<forall>z' \<in> set ['''', '''', '''', ''''].
              \<forall>t \<in> set [''foundation plan'', ''foundation'', ''footing'', ''slab on grade''].
                \<not> sublist t z'"
    by simp
  have same': "\<forall>t \<in> set [''foundation plan'', ''foundation'', ''footing'', ''slab on grade''].
                sublist t ''plan view footing'' = sublist t ''sheet a-2 footing''"
    by code_simp
  note foot = zone_outweighs_body [OF m' t' za' z1' z3' fa' zb' same']
  from elev h have e1: "score_of (keyword_scores ['''', ''sheet a-2 north elevation'', '''', '''']
        ''plan view'') ''ELEVATION'' = 6"
    and e2: "score_of (keyword_scores ['''', '''', '''', ''''] ''plan north elevation'')
        ''ELEVATION'' = 2"
    by simp_all
  from elev have e3: "score_of (page_scores ['''', '''', '''', ''''] ''plan north elevation'')
        ''ELEVATION''
       < score_of (page_scores ['''', ''sheet a-2 north elevation'', '''', ''''] ''plan view'')
           ''ELEVATION''"
    by simp
  from foot z2' have f1: "score_of (keyword_scores ['''', ''sheet a-2 footing'', '''', '''']
        ''plan view'') ''FOUNDATION'' = 3"
    and f2: "score_of (keyword_scores ['''', '''', '''', ''''] ''plan view footing'')
        ''FOUNDATION'' = 1"
    by blast+
  from h e1 e2 e3 f1 f2 show ?thesis by (intro conjI)
qed

theorem zone_outweighs_body_counterexample:
  "score_of (page_scores ['''', ''legend'', '''', ''''] ''plan view'') ''GENERAL_NOTES'' = 3
   \<and> score_of (page_scores ['''', '''', '''', '''']
        (''legend '' @ replicate 2000 (CHR ''x''))) ''GENERAL_NOTES'' = 4
   \<and> \<not> (score_of (page_scores ['''', '''', '''', '''']
             (''legend '' @ replicate 2000 (CHR ''x''))) ''GENERAL_NOTES''
          < score_of (page_scores ['''', ''legend'', '''', ''''] ''plan view'')
              ''GENERAL_NOTES'')"
proof -
  define gn_tags where "gn_tags = [''general notes'', ''general note'',
    ''general construction notes'', ''general information'', ''notes and details'',
    ''abbreviations'', ''symbols'', ''legend'', ''code requirements'']"
  define full where "full = ''legend '' @ replicate 2000 (CHR ''x'')"
  have m: "(''GENERAL_NOTES'', gn_tags) \<in> set KEYWORDS"
    by (simp add: KEYWORDS_def gn_tags_def)
  have nox: "\<forall>t \<in> set gn_tags. CHR ''x'' \<notin> set t" by (simp add: gn_tags_def)
  have "filter (\<lambda>t. sublist t full) gn_tags = filter (\<lambda>t. sublist t ''legend '') gn_tags"
  proof (rule filter_cong [OF refl])
    fix t assume "t \<in> set gn_tags"
    with nox have "CHR ''x'' \<notin> set t" by blast
    then show "sublist t full = sublist t ''legend ''"
      unfolding full_def by (rule sublist_padding)
  qed
  then have "hits gn_tags full = hits gn_tags ''legend ''" by (simp only: hits_def)
  moreover have "hits gn_tags ''legend '' = 1" unfolding gn_tags_def by code_simp
  ultimately have long: "hits gn_tags full = 1" by simp
  have empty: "hits gn_tags '''' = 0" by (simp add: hits_def gn_tags_def)
  have len: "2000 < length full"
    unfolding full_def length_append length_replicate by simp
  have b: "score_of (page_scores ['''', '''', '''', ''''] full) ''GENERAL_NOTES'' = 4"
    by (simp add: score_of_page_scores score_of_keyword_scores [OF m] len long empty)
  have a: "score_of (page_scores ['''', ''legend'', '''', ''''] ''plan view'') ''GENERAL_NOTES'' = 3"
    by code_simp
  have c: "\<not> (score_of (page_scores ['''', '''', '''', ''''] full) ''GENERAL_NOTES''
          < score_of (page_scores ['''', ''legend'', '''', ''''] ''plan view'')
              ''GENERAL_NOTES'')"
    unfolding a b by simp
  from a b c show ?thesis unfolding full_def by (intro conjI)
qed

end
